theory Spec2Isabelle
  imports Complex_Main "HOL-Library.Char_ord" "HOL-Library.List_Lexorder" "HOL-Library.Product_Lexorder"
    "HOL-Library.Log_Nat"
begin

section \<open>The sales analysis endpoint of app.py\<close>

text \<open>
  The endpoint \<^verbatim>\<open>analyze_file\<close> reads an uploaded workbook with pandas, validates it,
  keeps the rows of the requested months and aggregates them. The model follows the
  function line by line.
\<close>

subsection \<open>Cells and sheets\<close>

datatype month = Jan | Feb | Mar | Apr | May | Jun | Jul | Aug | Sep | Oct | Nov | Dec

record date =
  year :: int
  mon :: month
  day :: nat

text \<open>\<^verbatim>\<open>strftime('%b')\<close> in the C locale.\<close>

fun month_abbr :: "month \<Rightarrow> string" where
  "month_abbr Jan = ''Jan''"
| "month_abbr Feb = ''Feb''"
| "month_abbr Mar = ''Mar''"
| "month_abbr Apr = ''Apr''"
| "month_abbr May = ''May''"
| "month_abbr Jun = ''Jun''"
| "month_abbr Jul = ''Jul''"
| "month_abbr Aug = ''Aug''"
| "month_abbr Sep = ''Sep''"
| "month_abbr Oct = ''Oct''"
| "month_abbr Nov = ''Nov''"
| "month_abbr Dec = ''Dec''"

text \<open>
  A cell of the workbook as openpyxl hands it to pandas: a number, a text, a date or
  nothing. In a data frame \<open>Blank\<close> is the missing value (NaN, NaT).
\<close>

datatype cell = Num int | Txt string | Day date | Blank

text \<open>A sheet, and a data frame, is a list of named columns; \<open>df.columns\<close> are the names.\<close>

type_synonym frame = "(string \<times> cell list) list"

text \<open>
  What the code takes from pandas without saying how: which texts spell a number when a
  column is typed, and how \<^verbatim>\<open>pd.to_datetime\<close> reads a column that is not made of dates
  already. Both are parameters of the model.
\<close>

datatype parsed = Parsed "date option list" | ValueError string | Raised string

record pandas =
  text_number :: "string \<Rightarrow> int option"
  parse_dates :: "cell list \<Rightarrow> parsed"

subsection \<open>\<^verbatim>\<open>pd.read_excel(file, engine='openpyxl')\<close>\<close>

text \<open>
  The call passes no \<^verbatim>\<open>na_values\<close> and leaves \<^verbatim>\<open>keep_default_na\<close> on, so the texts below
  are read as missing values.
\<close>

definition STR_NA_VALUES :: "string list" where
  "STR_NA_VALUES =
     [''-1.#IND'', ''1.#QNAN'', ''1.#IND'', ''-1.#QNAN'', ''#N/A N/A'', ''#N/A'', ''N/A'',
      ''n/a'', ''NA'', ''<NA>'', ''#NA'', ''NULL'', ''null'', ''NaN'', ''-NaN'', ''nan'',
      ''-nan'', ''None'', '''']"

fun sanitize :: "cell \<Rightarrow> cell" where
  "sanitize (Txt s) = (if s \<in> set STR_NA_VALUES then Blank else Txt s)"
| "sanitize c = c"

fun as_number :: "(string \<Rightarrow> int option) \<Rightarrow> cell \<Rightarrow> cell option" where
  "as_number f (Num n) = Some (Num n)"
| "as_number f Blank = Some Blank"
| "as_number f (Txt s) = map_option Num (f s)"
| "as_number f (Day d) = None"

text \<open>A column becomes numeric when every cell of it does; otherwise it stays as it is.\<close>

definition convert_column :: "(string \<Rightarrow> int option) \<Rightarrow> cell list \<Rightarrow> cell list" where
  "convert_column f cs =
     (let cs' = map sanitize cs
      in case those (map (as_number f) cs') of Some ns \<Rightarrow> ns | None \<Rightarrow> cs')"

definition read_excel :: "pandas \<Rightarrow> frame \<Rightarrow> frame" where
  "read_excel L sh = map (\<lambda>(name, cs). (name, convert_column (text_number L) cs)) sh"

text \<open>\<open>df[name]\<close>, used only after the name was found among the columns.\<close>

definition col :: "frame \<Rightarrow> string \<Rightarrow> cell list" where
  "col df name = (case map_of df name of Some cs \<Rightarrow> cs | None \<Rightarrow> [])"

fun numeric_cell :: "cell \<Rightarrow> bool" where
  "numeric_cell (Num n) = True"
| "numeric_cell Blank = True"
| "numeric_cell c = False"

text \<open>
  \<^verbatim>\<open>pd.api.types.is_numeric_dtype\<close>: the column is int64 or float64. A column without
  rows is typed \<open>object\<close>.
\<close>

definition is_numeric_dtype :: "cell list \<Rightarrow> bool" where
  "is_numeric_dtype cs = (cs \<noteq> [] \<and> list_all numeric_cell cs)"

fun date_cell :: "cell \<Rightarrow> bool" where
  "date_cell (Day d) = True"
| "date_cell Blank = True"
| "date_cell c = False"

fun date_of :: "cell \<Rightarrow> date option" where
  "date_of (Day d) = Some d"
| "date_of c = None"

fun num_of :: "cell \<Rightarrow> int option" where
  "num_of (Num n) = Some n"
| "num_of c = None"

definition to_datetime :: "pandas \<Rightarrow> cell list \<Rightarrow> parsed" where
  "to_datetime L cs = (if list_all date_cell cs then Parsed (map date_of cs) else parse_dates L cs)"

subsection \<open>Numbers\<close>

text \<open>
  The numeric cells are whole numbers. pandas holds a column of them as int64, or as
  float64 when a cell is blank, and sums it in that type; the sums of the model are the
  exact sums, which is what both types give as long as the absolute values of the column
  sum to less than \<open>2 ^ 53\<close>. The theorems about percentages assume that range.

  A division and the rounding of its result are float64 operations. A finite float64 is
  the rational number it stands for; \<open>nearest\<close> rounds a number to the float64 next to it,
  a tie to the even mantissa, as every float64 operation does with its exact result. It
  is also the float64 that a decimal such as 66.7 denotes. A zero keeps no sign here.
\<close>

datatype f64 = Fin rat | PInf | NInf | NaN

text \<open>Round half to even, to a whole number: \<^verbatim>\<open>rint\<close>.\<close>

definition rint :: "rat \<Rightarrow> int" where
  "rint x =
     (let f = \<lfloor>x\<rfloor>; d = x - of_int f
      in if d < 1 / 2 then f else if 1 / 2 < d then f + 1 else if even f then f else f + 1)"

text \<open>The binary exponent of a number: \<open>2 powi expo x \<le> \<bar>x\<bar> < 2 powi (expo x + 1)\<close>.\<close>

definition expo :: "rat \<Rightarrow> int" where
  "expo x =
     (let (p, q) = quotient_of \<bar>x\<bar>;
          d = bitlen p - bitlen q
      in if 2 powi d \<le> \<bar>x\<bar> then d else d - 1)"

text \<open>
  53 bits of mantissa, the exponent not below that of the subnormal numbers, and an
  infinity where the rounded number is beyond the largest float64.
\<close>

definition nearest :: "rat \<Rightarrow> f64" where
  "nearest x =
     (let u = 2 powi (max (expo x) (- 1022) - 52);
          y = of_int (rint (x / u)) * u
      in if 1024 \<le> expo y then (if 0 < x then PInf else NInf) else Fin y)"

definition f64_of_int :: "int \<Rightarrow> f64" where
  "f64_of_int n = nearest (of_int n)"

fun sign :: "f64 \<Rightarrow> int" where
  "sign (Fin a) = (if a < 0 then - 1 else if a = 0 then 0 else 1)"
| "sign PInf = 1"
| "sign NInf = - 1"
| "sign NaN = 0"

text \<open>
  Multiplication and division of float64. numpy does not raise on a division by zero: the
  quotient is an infinity, or NaN for zero by zero.
\<close>

fun fmul :: "f64 \<Rightarrow> f64 \<Rightarrow> f64" where
  "fmul (Fin a) (Fin b) = nearest (a * b)"
| "fmul NaN y = NaN"
| "fmul x NaN = NaN"
| "fmul x y = (if sign x * sign y = 0 then NaN else if 0 < sign x * sign y then PInf else NInf)"

fun fdiv :: "f64 \<Rightarrow> f64 \<Rightarrow> f64" where
  "fdiv (Fin a) (Fin b) =
     (if b = 0 then (if a = 0 then NaN else if 0 < a then PInf else NInf) else nearest (a / b))"
| "fdiv NaN y = NaN"
| "fdiv x NaN = NaN"
| "fdiv (Fin a) y = Fin 0"
| "fdiv x (Fin b) = (if (0 < sign x) = (0 \<le> b) then PInf else NInf)"
| "fdiv x y = NaN"

fun f_rint :: "f64 \<Rightarrow> f64" where
  "f_rint (Fin a) = Fin (of_int (rint a))"
| "f_rint x = x"

text \<open>
  \<^verbatim>\<open>round(x, ndigits)\<close> of a numpy float64: times the power of ten, \<^verbatim>\<open>rint\<close>, divided by
  the power of ten.
\<close>

definition round_f64 :: "f64 \<Rightarrow> nat \<Rightarrow> f64" where
  "round_f64 x ndigits = fdiv (f_rint (fmul x (Fin (10 ^ ndigits)))) (Fin (10 ^ ndigits))"

subsection \<open>Requests and responses\<close>

record upload =
  filename :: string
  content :: "string + frame"

record request =
  file_part :: "upload option"
  specificMonths :: "string option"
  productFilter :: "string option"

text \<open>
  A formatted string is kept as its pieces: the literal text, a label printed by \<open>str\<close>,
  and a number with the format it is printed in.
\<close>

datatype piece = Lit string | Shown cell | Formatted string f64

type_synonym fstring = "piece list"

record bar_point =
  month :: string
  sales :: int
  color :: string

record pie_slice =
  name :: cell
  "value" :: f64
  colour :: string

record summary_stat =
  label :: string
  amount :: fstring
  trend :: string

record insights_t =
  topPerformers :: "fstring list"
  recommendations :: "fstring list"

record body =
  barChartData :: "bar_point list"
  pieChartData :: "pie_slice list"
  summaryStats :: "summary_stat list"
  insights :: insights_t

datatype response = Success body | Failure nat string

subsection \<open>Rows\<close>

text \<open>
  The rows of a frame whose Date column has been parsed. The columns of a frame are of one
  height; were they not, the shortest would decide.
\<close>

record row =
  Date :: "date option"
  Sales :: "int option"
  Revenue :: "int option"
  Product :: cell

definition rows_of :: "date option list \<Rightarrow> cell list \<Rightarrow> cell list \<Rightarrow> cell list \<Rightarrow> row list" where
  "rows_of ds ss rs ps =
     map (\<lambda>(d, s, r, p). \<lparr>Date = d, Sales = num_of s, Revenue = num_of r, Product = p\<rparr>)
       (zip ds (zip ss (zip rs ps)))"

subsection \<open>Text helpers\<close>

text \<open>\<^verbatim>\<open>str.endswith\<close>, \<^verbatim>\<open>str.split(',')\<close>, \<^verbatim>\<open>str.strip()\<close> and \<^verbatim>\<open>", ".join\<close>.\<close>

definition endswith :: "string \<Rightarrow> string \<Rightarrow> bool" where
  "endswith s suf = (length suf \<le> length s \<and> drop (length s - length suf) s = suf)"

fun split_on :: "char \<Rightarrow> string \<Rightarrow> string list" where
  "split_on c [] = [[]]"
| "split_on c (x # xs) =
     (if x = c then [] # split_on c xs
      else (case split_on c xs of w # ws \<Rightarrow> (x # w) # ws | [] \<Rightarrow> [[x]]))"

text \<open>The characters below 256 for which \<^verbatim>\<open>str.isspace\<close> holds.\<close>

definition isspace :: "char \<Rightarrow> bool" where
  "isspace c = (of_char c \<in> set [9, 10, 11, 12, 13, 28, 29, 30, 31, 32, 133, 160 :: nat])"

definition strip :: "string \<Rightarrow> string" where
  "strip s = rev (dropWhile isspace (rev (dropWhile isspace s)))"

fun join :: "string \<Rightarrow> string list \<Rightarrow> string" where
  "join sep [] = []"
| "join sep [x] = x"
| "join sep (x # y # ys) = x @ sep @ join sep (y # ys)"

subsection \<open>Grouping\<close>

text \<open>A sum skips the missing values.\<close>

fun skipna :: "int option \<Rightarrow> int" where
  "skipna None = 0"
| "skipna (Some n) = n"

text \<open>
  \<^verbatim>\<open>groupby(key)[col].sum()\<close> with the default \<^verbatim>\<open>sort=True\<close>: one entry for each key, the
  keys in ascending order. \<open>ord\<close> is the order of the keys.
\<close>

definition groupby_sum :: "('k \<Rightarrow> 'o::linorder) \<Rightarrow> ('k \<times> int option) list \<Rightarrow> ('k \<times> int) list" where
  "groupby_sum ord kvs =
     map (\<lambda>k. (k, sum_list (map (skipna \<circ> snd) (filter (\<lambda>kv. fst kv = k) kvs))))
       (sort_key ord (remdups (map fst kvs)))"

text \<open>\<^verbatim>\<open>idxmax\<close>: the first key of the greatest sum; it raises on an empty series.\<close>

fun idxmax :: "('k \<times> int) list \<Rightarrow> 'k option" where
  "idxmax [] = None"
| "idxmax (kv # kvs) = Some (fst (foldl (\<lambda>b kv'. if snd b < snd kv' then kv' else b) kv kvs))"

definition argmax_empty :: string where
  "argmax_empty = ''attempt to get argmax of an empty sequence''"

text \<open>
  The keys of the month grouping are the abbreviations, ordered as Python orders strings.
  Rows without a date have no key and fall out of the grouping.
\<close>

definition month_keys :: "row list \<Rightarrow> (string \<times> int option) list" where
  "month_keys recent =
     concat (map (\<lambda>r. case Date r of None \<Rightarrow> [] | Some d \<Rightarrow> [(month_abbr (mon d), Sales r)]) recent)"

definition by_month :: "row list \<Rightarrow> (string \<times> int) list" where
  "by_month recent = groupby_sum (\<lambda>k. k) (month_keys recent)"

text \<open>
  The keys of the product grouping are the labels of the Product column. A column of
  numbers is ordered by value, one of dates by time, one of text as Python orders strings;
  where a column mixes them the model puts numbers first, then dates, then text.
\<close>

fun month_no :: "month \<Rightarrow> int" where
  "month_no Jan = 1" | "month_no Feb = 2" | "month_no Mar = 3" | "month_no Apr = 4"
| "month_no May = 5" | "month_no Jun = 6" | "month_no Jul = 7" | "month_no Aug = 8"
| "month_no Sep = 9" | "month_no Oct = 10" | "month_no Nov = 11" | "month_no Dec = 12"

fun label_ord :: "cell \<Rightarrow> nat \<times> int \<times> string" where
  "label_ord (Num n) = (0, n, [])"
| "label_ord (Day d) = (1, (year d * 12 + month_no (mon d)) * 32 + int (day d), [])"
| "label_ord (Txt s) = (2, 0, s)"
| "label_ord Blank = (3, 0, [])"

definition product_keys :: "row list \<Rightarrow> (cell \<times> int option) list" where
  "product_keys recent = map (\<lambda>r. (Product r, Sales r)) (filter (\<lambda>r. Product r \<noteq> Blank) recent)"

definition by_product :: "row list \<Rightarrow> (cell \<times> int) list" where
  "by_product recent = groupby_sum label_ord (product_keys recent)"

subsection \<open>Aggregation\<close>

definition bar_colors :: "string list" where
  "bar_colors =
     [''#3B82F6'', ''#10B981'', ''#F59E0B'', ''#EF4444'', ''#8B5CF6'', ''#EC4899'',
      ''#06B6D4'', ''#D97706'', ''#6366F1'', ''#F472B6'', ''#14B8A6'', ''#F43F5E'']"

definition colors :: "string list" where
  "colors = [''#3B82F6'', ''#10B981'', ''#F59E0B'', ''#EF4444'', ''#8B5CF6'']"

definition bar_chart_data :: "row list \<Rightarrow> bar_point list" where
  "bar_chart_data recent =
     map (\<lambda>(i, m, s). \<lparr>month = m, sales = s, color = bar_colors ! (i mod length bar_colors)\<rparr>)
       (enumerate 0 (by_month recent))"

definition total_sales :: "row list \<Rightarrow> int" where
  "total_sales recent = sum_list (map (skipna \<circ> Sales) recent)"

text \<open>
  The grouped sums keep their index of the key order through \<^verbatim>\<open>sort_values\<close>, and
  \<^verbatim>\<open>iterrows\<close> hands that index to the colour. Equal sums stay in key order, as the
  sort leaves them on a short table; nothing proved below rests on the order of equal sums.
\<close>

definition top_products :: "row list \<Rightarrow> (nat \<times> cell \<times> int) list" where
  "top_products recent = take 5 (sort_key (\<lambda>(i, p, s). - s) (enumerate 0 (by_product recent)))"

text \<open>\<^verbatim>\<open>round(row['Sales'] / total_sales * 100, 1)\<close> of line 133, in float64.\<close>

definition percentage :: "int \<Rightarrow> int \<Rightarrow> f64" where
  "percentage s whole = round_f64 (fmul (fdiv (f64_of_int s) (f64_of_int whole)) (Fin 100)) 1"

definition pie_chart_data :: "row list \<Rightarrow> pie_slice list" where
  "pie_chart_data recent =
     map (\<lambda>(i, p, s).
           \<lparr>name = p,
            value = (if total_sales recent > 0 then percentage s (total_sales recent) else Fin 0),
            colour = colors ! (i mod length colors)\<rparr>)
       (top_products recent)"

definition count_sales :: "row list \<Rightarrow> nat" where
  "count_sales recent = length (filter (\<lambda>r. Sales r \<noteq> None) recent)"

definition avg_sales :: "row list \<Rightarrow> f64" where
  "avg_sales recent =
     (if count_sales recent > 0
      then fdiv (f64_of_int (total_sales recent)) (f64_of_int (int (count_sales recent)))
      else Fin 0)"

definition total_revenue :: "row list \<Rightarrow> int" where
  "total_revenue recent = sum_list (map (skipna \<circ> Revenue) recent)"

definition summary_stats :: "row list \<Rightarrow> summary_stat list" where
  "summary_stats recent =
     [\<lparr>label = ''Total Revenue'',
       amount = [Lit ''$'', Formatted '',.2f'' (f64_of_int (total_revenue recent))],
       trend = ''neutral''\<rparr>,
      \<lparr>label = ''Total Sales'',
       amount = [Formatted '',.0f'' (f64_of_int (total_sales recent))],
       trend = ''neutral''\<rparr>,
      \<lparr>label = ''Average Sales'',
       amount = [Formatted '',.2f'' (avg_sales recent)],
       trend = ''neutral''\<rparr>]"

definition make_insights :: "string \<Rightarrow> cell \<Rightarrow> pie_slice list \<Rightarrow> insights_t" where
  "make_insights top_month top_product pie =
     \<lparr>topPerformers =
        [if top_month \<noteq> ''N/A'' then [Lit top_month, Lit '' showed the highest sales volume'']
         else [Lit ''No data available''],
         (case pie of
            [] \<Rightarrow> [Lit ''No data available'']
          | sl # _ \<Rightarrow> [Shown top_product, Lit '' dominates with '', Formatted [] (value sl),
                       Lit ''% market share'']),
         [Lit ''Review sales trends for optimization'']],
      recommendations =
        [if top_product \<noteq> Txt ''N/A''
         then [Lit ''Focus marketing efforts on '', Shown top_product, Lit '' success'']
         else [Lit ''No top product identified''],
         [Lit ''Analyze underperforming products''],
         if top_month \<noteq> ''N/A''
         then [Lit ''Consider expanding successful '', Lit top_month, Lit '' strategies'']
         else [Lit ''No top month identified'']]\<rparr>"

text \<open>
  Lines 82 to 184: the table after the month filter goes in, the response comes out. An
  \<^verbatim>\<open>idxmax\<close> over no groups raises, and the handler of line 186 answers 500. Past line
  83 the table is not empty, so lines 163 and 164 never choose their \<^verbatim>\<open>"N/A"\<close>.
\<close>

definition aggregate :: "row list \<Rightarrow> response" where
  "aggregate recent =
     (if recent = [] then Failure 400 ''No data available after applying product filter''
      else case idxmax (by_month recent) of
        None \<Rightarrow> Failure 500 (''Failed to process file: '' @ argmax_empty)
      | Some top_month \<Rightarrow>
          (case idxmax (by_product recent) of
             None \<Rightarrow> Failure 500 (''Failed to process file: '' @ argmax_empty)
           | Some top_product \<Rightarrow>
               Success \<lparr>barChartData = bar_chart_data recent,
                        pieChartData = pie_chart_data recent,
                        summaryStats = summary_stats recent,
                        insights = make_insights top_month top_product (pie_chart_data recent)\<rparr>))"

subsection \<open>The month filter\<close>

definition month_list :: "string \<Rightarrow> string list" where
  "month_list specific_months = map strip (split_on CHR '','' specific_months)"

definition in_months :: "string list \<Rightarrow> row \<Rightarrow> bool" where
  "in_months ms r = (case Date r of None \<Rightarrow> False | Some d \<Rightarrow> month_abbr (mon d) \<in> set ms)"

text \<open>
  Lines 59 to 73. \<open>Inl\<close> is the response of an early return. On a column of dates
  \<^verbatim>\<open>strftime\<close> and \<^verbatim>\<open>isin\<close> do not raise, so the handler of lines 68 to 70 has no
  branch here.
\<close>

definition filter_months :: "string \<Rightarrow> row list \<Rightarrow> response + row list" where
  "filter_months specific_months df =
     (if specific_months \<noteq> []
      then (let recent_data = filter (in_months (month_list specific_months)) df
            in if recent_data = []
               then Inl (Failure 400 (''No data found for specified months: '' @ specific_months))
               else Inr recent_data)
      else Inr df)"

subsection \<open>Validation\<close>

definition required_columns :: "string list" where
  "required_columns = [''Date'', ''Sales'', ''Revenue'', ''Product'']"

definition missing_columns :: "frame \<Rightarrow> string list" where
  "missing_columns df = filter (\<lambda>c. c \<notin> set (map fst df)) required_columns"

text \<open>Lines 40 to 57: the frame read from the file becomes the table of rows.\<close>

definition validate :: "pandas \<Rightarrow> frame \<Rightarrow> response + row list" where
  "validate L df =
     (if missing_columns df \<noteq> []
      then Inl (Failure 400 (''Missing required columns: '' @ join '', '' (missing_columns df)))
      else if \<not> is_numeric_dtype (col df ''Sales'') \<or> \<not> is_numeric_dtype (col df ''Revenue'')
      then Inl (Failure 400 ''Sales and Revenue columns must contain numeric values'')
      else case to_datetime L (col df ''Date'') of
        ValueError e \<Rightarrow> Inl (Failure 400 (''Invalid date format in Date column: '' @ e))
      | Raised e \<Rightarrow> Inl (Failure 500 (''Failed to process file: '' @ e))
      | Parsed ds \<Rightarrow> Inr (rows_of ds (col df ''Sales'') (col df ''Revenue'') (col df ''Product'')))"

text \<open>
  Lines 16 to 73: everything before the aggregation. The product filter is read from the
  form and, its code being commented out, used nowhere.
\<close>

definition prepare :: "pandas \<Rightarrow> request \<Rightarrow> response + row list" where
  "prepare L req =
     (case file_part req of
        None \<Rightarrow> Inl (Failure 400 ''No file part in request'')
      | Some f \<Rightarrow>
          if filename f = [] then Inl (Failure 400 ''No file selected'')
          else if \<not> (endswith (filename f) ''.xlsx'' \<or> endswith (filename f) ''.xls'')
          then Inl (Failure 400 ''Invalid file format. Please upload an Excel file (.xlsx or .xls)'')
          else
            (let specific_months = (case specificMonths req of None \<Rightarrow> ''Jan'' | Some s \<Rightarrow> s);
                 product_filter = (case productFilter req of None \<Rightarrow> ''all'' | Some s \<Rightarrow> s)
             in case content f of
                  Inl e \<Rightarrow> Inl (Failure 500 (''Failed to process file: '' @ e))
                | Inr sheet \<Rightarrow>
                    (case validate L (read_excel L sheet) of
                       Inl early \<Rightarrow> Inl early
                     | Inr df \<Rightarrow> filter_months specific_months df)))"

definition analyze_file :: "pandas \<Rightarrow> request \<Rightarrow> response" where
  "analyze_file L req = (case prepare L req of Inl early \<Rightarrow> early | Inr recent \<Rightarrow> aggregate recent)"

text \<open>The status of the HTTP response: \<^verbatim>\<open>jsonify\<close> alone answers 200.\<close>

fun status :: "response \<Rightarrow> nat" where
  "status (Success b) = 200"
| "status (Failure code msg) = code"

subsection \<open>Notions of the specification\<close>

text \<open>The summed sales of one product in a table, and the month abbreviations in it.\<close>

definition sales_of_product :: "cell \<Rightarrow> row list \<Rightarrow> int" where
  "sales_of_product p recent = sum_list (map (skipna \<circ> Sales) (filter (\<lambda>r. Product r = p) recent))"

definition months_present :: "row list \<Rightarrow> string list" where
  "months_present df = remdups (map fst (month_keys df))"

subsection \<open>Example uploads\<close>

text \<open>A pandas that reads no text as a number and no text as a date.\<close>

definition pandas_plain :: pandas where
  "pandas_plain =
     \<lparr>text_number = (\<lambda>s. None),
      parse_dates = (\<lambda>cs. ValueError ''Unknown datetime string format'')\<rparr>"

definition xlsx :: "frame \<Rightarrow> string \<Rightarrow> request" where
  "xlsx sheet months =
     \<lparr>file_part = Some \<lparr>filename = ''sales.xlsx'', content = Inr sheet\<rparr>,
      specificMonths = Some months, productFilter = None\<rparr>"

text \<open>The scenario of the specification: two rows of January and one of February.\<close>

definition scenario_sheet :: frame where
  "scenario_sheet =
     [(''Date'', [Day \<lparr>year = 2024, mon = Jan, day = 5\<rparr>, Day \<lparr>year = 2024, mon = Jan, day = 12\<rparr>,
                  Day \<lparr>year = 2024, mon = Feb, day = 1\<rparr>]),
      (''Sales'', [Num 10, Num 20, Num 5]),
      (''Revenue'', [Num 100, Num 200, Num 50]),
      (''Product'', [Txt ''A'', Txt ''B'', Txt ''A''])]"

definition scenario_rows :: "row list" where
  "scenario_rows =
     [\<lparr>Date = Some \<lparr>year = 2024, mon = Jan, day = 5\<rparr>, Sales = Some 10, Revenue = Some 100,
       Product = Txt ''A''\<rparr>,
      \<lparr>Date = Some \<lparr>year = 2024, mon = Jan, day = 12\<rparr>, Sales = Some 20, Revenue = Some 200,
       Product = Txt ''B''\<rparr>]"

definition scenario_body :: body where
  "scenario_body =
     \<lparr>barChartData = [\<lparr>month = ''Jan'', sales = 30, color = ''#3B82F6''\<rparr>],
      pieChartData =
        [\<lparr>name = Txt ''B'', value = nearest (667 / 10), colour = ''#10B981''\<rparr>,
         \<lparr>name = Txt ''A'', value = nearest (333 / 10), colour = ''#3B82F6''\<rparr>],
      summaryStats =
        [\<lparr>label = ''Total Revenue'', amount = [Lit ''$'', Formatted '',.2f'' (Fin 300)],
          trend = ''neutral''\<rparr>,
         \<lparr>label = ''Total Sales'', amount = [Formatted '',.0f'' (Fin 30)], trend = ''neutral''\<rparr>,
         \<lparr>label = ''Average Sales'', amount = [Formatted '',.2f'' (Fin 15)], trend = ''neutral''\<rparr>],
      insights =
        \<lparr>topPerformers =
           [[Lit ''Jan'', Lit '' showed the highest sales volume''],
            [Shown (Txt ''B''), Lit '' dominates with '', Formatted [] (nearest (667 / 10)),
             Lit ''% market share''],
            [Lit ''Review sales trends for optimization'']],
         recommendations =
           [[Lit ''Focus marketing efforts on '', Shown (Txt ''B''), Lit '' success''],
            [Lit ''Analyze underperforming products''],
            [Lit ''Consider expanding successful '', Lit ''Jan'', Lit '' strategies'']]\<rparr>\<rparr>"

text \<open>Three products of one month selling 4, 1 and 1.\<close>

definition sixths_sheet :: frame where
  "sixths_sheet =
     [(''Date'', [Day \<lparr>year = 2024, mon = Jan, day = 5\<rparr>, Day \<lparr>year = 2024, mon = Jan, day = 6\<rparr>,
                  Day \<lparr>year = 2024, mon = Jan, day = 7\<rparr>]),
      (''Sales'', [Num 4, Num 1, Num 1]),
      (''Revenue'', [Num 40, Num 10, Num 10]),
      (''Product'', [Txt ''A'', Txt ''B'', Txt ''C''])]"

text \<open>A row whose Date cell is empty.\<close>

definition undated_sheet :: frame where
  "undated_sheet =
     [(''Date'', [Day \<lparr>year = 2024, mon = Jan, day = 5\<rparr>, Blank]),
      (''Sales'', [Num 10, Num 5]),
      (''Revenue'', [Num 100, Num 50]),
      (''Product'', [Txt ''A'', Txt ''B''])]"

text \<open>The scenario with the text N/A in a Sales cell.\<close>

definition na_sheet :: frame where
  "na_sheet =
     [(''Date'', [Day \<lparr>year = 2024, mon = Jan, day = 5\<rparr>, Day \<lparr>year = 2024, mon = Jan, day = 12\<rparr>,
                  Day \<lparr>year = 2024, mon = Feb, day = 1\<rparr>]),
      (''Sales'', [Num 10, Txt ''N/A'', Num 5]),
      (''Revenue'', [Num 100, Num 200, Num 50]),
      (''Product'', [Txt ''A'', Txt ''B'', Txt ''A''])]"

text \<open>The scenario with the text \<open>unknown\<close> in a Sales cell.\<close>

definition text_sheet :: frame where
  "text_sheet =
     [(''Date'', [Day \<lparr>year = 2024, mon = Jan, day = 5\<rparr>, Day \<lparr>year = 2024, mon = Jan, day = 12\<rparr>,
                  Day \<lparr>year = 2024, mon = Feb, day = 1\<rparr>]),
      (''Sales'', [Num 10, Txt ''unknown'', Num 5]),
      (''Revenue'', [Num 100, Num 200, Num 50]),
      (''Product'', [Txt ''A'', Txt ''B'', Txt ''A''])]"

text \<open>A sheet with neither a Sales nor a Product column, and text where dates belong.\<close>

definition partial_sheet :: frame where
  "partial_sheet = [(''Date'', [Txt ''soon'']), (''Revenue'', [Txt ''much''])]"

text \<open>The scenario's table once validated, all three rows.\<close>

definition scenario_table :: "row list" where
  "scenario_table =
     [\<lparr>Date = Some \<lparr>year = 2024, mon = Jan, day = 5\<rparr>, Sales = Some 10, Revenue = Some 100,
       Product = Txt ''A''\<rparr>,
      \<lparr>Date = Some \<lparr>year = 2024, mon = Jan, day = 12\<rparr>, Sales = Some 20, Revenue = Some 200,
       Product = Txt ''B''\<rparr>,
      \<lparr>Date = Some \<lparr>year = 2024, mon = Feb, day = 1\<rparr>, Sales = Some 5, Revenue = Some 50,
       Product = Txt ''A''\<rparr>]"



text \<open>The body of the answer for a table with a given top month and top product.\<close>

definition body_of :: "row list \<Rightarrow> string \<Rightarrow> cell \<Rightarrow> body" where
  "body_of recent top_month top_product =
     \<lparr>barChartData = bar_chart_data recent, pieChartData = pie_chart_data recent,
      summaryStats = summary_stats recent,
      insights = make_insights top_month top_product (pie_chart_data recent)\<rparr>"

text \<open>The table of the sheet with the undated row, and its rows of January.\<close>

definition undated_table :: "row list" where
  "undated_table =
     [\<lparr>Date = Some \<lparr>year = 2024, mon = Jan, day = 5\<rparr>, Sales = Some 10, Revenue = Some 100,
       Product = Txt ''A''\<rparr>,
      \<lparr>Date = None, Sales = Some 5, Revenue = Some 50, Product = Txt ''B''\<rparr>]"

definition undated_kept :: "row list" where
  "undated_kept =
     [\<lparr>Date = Some \<lparr>year = 2024, mon = Jan, day = 5\<rparr>, Sales = Some 10, Revenue = Some 100,
       Product = Txt ''A''\<rparr>]"

text \<open>
  A value of the pie read to one decimal, in tenths: 667 for the float64 that prints as
  66.7.
\<close>

fun tenths :: "f64 \<Rightarrow> int" where
  "tenths (Fin q) = rint (q * 10)"
| "tenths x = 0"



section \<open>Properties\<close>

subsection \<open>Reading and validating\<close>

lemma read_excel_names: "map fst (read_excel L sh) = map fst sh"
  by (induction sh) (auto simp: read_excel_def)

lemma missing_columns_read: "missing_columns (read_excel L sh) = missing_columns sh"
  by (simp add: missing_columns_def read_excel_names)

lemma prepare_accepted:
  assumes "file_part req = Some f" and "filename f \<noteq> []"
    and "endswith (filename f) ''.xlsx'' \<or> endswith (filename f) ''.xls''"
    and "content f = Inr sheet"
  shows "prepare L req =
     (case validate L (read_excel L sheet) of
        Inl early \<Rightarrow> Inl early
      | Inr df \<Rightarrow> filter_months (case specificMonths req of None \<Rightarrow> ''Jan'' | Some s \<Rightarrow> s) df)"
  using assms by (simp add: prepare_def Let_def)

lemma those_None_iff: "those xs = None \<longleftrightarrow> None \<in> set xs"
  by (induction xs) (auto split: option.splits)

lemma convert_column_not_numeric:
  assumes "c \<in> set cs" and "as_number f (sanitize c) = None"
  shows "\<not> is_numeric_dtype (convert_column f cs)"
proof -
  have "None \<in> set (map (as_number f) (map sanitize cs))"
    using assms by force
  then have "those (map (as_number f) (map sanitize cs)) = None"
    by (simp only: those_None_iff)
  then have eq: "convert_column f cs = map sanitize cs"
    unfolding convert_column_def Let_def by simp
  have "\<not> numeric_cell (sanitize c)"
    using assms(2) by (cases "sanitize c") auto
  then show ?thesis
    using assms(1) by (auto simp: eq is_numeric_dtype_def list_all_iff)
qed

lemma col_read_excel:
  "col (read_excel L sh) n =
     (if n \<in> set (map fst sh) then convert_column (text_number L) (col sh n) else [])"
  by (induction sh) (auto simp: col_def read_excel_def split: option.splits)

text \<open>
  C9: the product filter of the request has no effect on the response: two requests that
  differ in nothing but \<open>productFilter\<close> get the same status and the same body.
\<close>

theorem product_filter_inert:
  "analyze_file L (req\<lparr>productFilter := pf\<rparr>) = analyze_file L req"
  by (simp add: analyze_file_def prepare_def Let_def split: option.split)

text \<open>
  C5: a workbook that was read and lacks at least one of the columns Date, Sales, Revenue
  and Product is answered with status 400 and a message that lists the missing names, all
  of them and no other, whatever the cells hold: no type or date check comes first.
\<close>

theorem missing_columns_rejected:
  assumes "file_part req = Some f" and "filename f \<noteq> []"
    and "endswith (filename f) ''.xlsx'' \<or> endswith (filename f) ''.xls''"
    and "content f = Inr sheet"
    and "set required_columns - set (map fst sheet) \<noteq> {}"
  shows "analyze_file L req =
     Failure 400 (''Missing required columns: '' @
        join '', '' (filter (\<lambda>c. c \<notin> set (map fst sheet)) required_columns))"
proof -
  have "missing_columns (read_excel L sheet) \<noteq> []"
    using assms(5) unfolding missing_columns_read
    by (auto simp: missing_columns_def filter_empty_conv)
  then have "validate L (read_excel L sheet) =
      Inl (Failure 400 (''Missing required columns: '' @ join '', '' (missing_columns sheet)))"
    by (simp add: validate_def missing_columns_read)
  then show ?thesis
    using prepare_accepted[OF assms(1-4), of L]
    by (simp add: analyze_file_def missing_columns_def)
qed

theorem missing_columns_rejected_witness:
  "set required_columns - set (map fst partial_sheet) \<noteq> {} \<and>
   analyze_file pandas_plain (xlsx partial_sheet ''Jan'') =
     Failure 400 ''Missing required columns: Sales, Product''"
proof -
  have names: "set required_columns - set (map fst partial_sheet) \<noteq> {}"
    by (simp add: required_columns_def partial_sheet_def)
  have suffix: "endswith ''sales.xlsx'' ''.xlsx''"
    by (simp add: endswith_def)
  show ?thesis
    using names
      missing_columns_rejected[of "xlsx partial_sheet ''Jan''"
        "\<lparr>filename = ''sales.xlsx'', content = Inr partial_sheet\<rparr>" partial_sheet pandas_plain]
    by (simp add: xlsx_def suffix required_columns_def partial_sheet_def)
qed

lemma xlsx_accepted:
  "file_part (xlsx sheet months) = Some \<lparr>filename = ''sales.xlsx'', content = Inr sheet\<rparr>"
  "filename \<lparr>filename = ''sales.xlsx'', content = Inr sheet\<rparr> \<noteq> []"
  "endswith (filename \<lparr>filename = ''sales.xlsx'', content = (Inr sheet :: string + frame)\<rparr>) ''.xlsx'' \<or>
   endswith (filename \<lparr>filename = ''sales.xlsx'', content = (Inr sheet :: string + frame)\<rparr>) ''.xls''"
  "content \<lparr>filename = ''sales.xlsx'', content = Inr sheet\<rparr> = Inr sheet"
  "specificMonths (xlsx sheet months) = Some months"
  by (simp_all add: xlsx_def endswith_def)

lemma scenario_validated:
  "validate pandas_plain (read_excel pandas_plain scenario_sheet) = Inr scenario_table"
  by code_simp

text \<open>
  What the check of lines 47 to 50 does reject: when the Sales or the Revenue column of a
  workbook that was read, with all four columns, holds a cell that read_excel cannot take
  for a number or a missing value (a date, or a text that is no missing-value marker and
  spells no number), the whole request is answered with status 400 before any aggregation.
\<close>

theorem non_numeric_rejected:
  assumes "file_part req = Some f" and "filename f \<noteq> []"
    and "endswith (filename f) ''.xlsx'' \<or> endswith (filename f) ''.xls''"
    and "content f = Inr sheet"
    and "set required_columns \<subseteq> set (map fst sheet)"
    and "c \<in> set (col sheet ''Sales'') \<union> set (col sheet ''Revenue'')"
    and "as_number (text_number L) (sanitize c) = None"
  shows "analyze_file L req =
     Failure 400 ''Sales and Revenue columns must contain numeric values''"
proof -
  have present: "missing_columns (read_excel L sheet) = []"
    using assms(5) unfolding missing_columns_read
    by (auto simp: missing_columns_def filter_empty_conv)
  have names: "''Sales'' \<in> set (map fst sheet)" "''Revenue'' \<in> set (map fst sheet)"
    using assms(5) by (auto simp: required_columns_def)
  have "\<not> is_numeric_dtype (col (read_excel L sheet) ''Sales'') \<or>
        \<not> is_numeric_dtype (col (read_excel L sheet) ''Revenue'')"
    using assms(6) convert_column_not_numeric[OF _ assms(7)] names
    by (auto simp: col_read_excel)
  then have "validate L (read_excel L sheet) =
      Inl (Failure 400 ''Sales and Revenue columns must contain numeric values'')"
    using present by (auto simp: validate_def)
  then show ?thesis
    using prepare_accepted[OF assms(1-4), of L] by (simp add: analyze_file_def)
qed

theorem non_numeric_rejected_witness:
  "Txt ''unknown'' \<in> set (col text_sheet ''Sales'') \<and>
   analyze_file pandas_plain (xlsx text_sheet ''Jan'') =
     Failure 400 ''Sales and Revenue columns must contain numeric values''"
proof -
  have cols: "set required_columns \<subseteq> set (map fst text_sheet)"
    by (simp add: required_columns_def text_sheet_def)
  have cell: "Txt ''unknown'' \<in> set (col text_sheet ''Sales'') \<union> set (col text_sheet ''Revenue'')"
    by (simp add: col_def text_sheet_def)
  have kept: "as_number (text_number pandas_plain) (sanitize (Txt ''unknown'')) = None"
    by (simp add: pandas_plain_def STR_NA_VALUES_def)
  show ?thesis
    using non_numeric_rejected[OF xlsx_accepted(1-4) cols cell kept, of "''Jan''"]
    by (simp add: col_def text_sheet_def)
qed

text \<open>
  C7: the code misses the claim on the claim's own example. Lines 47 to 50 mean to reject
  a Sales column with a non-numeric cell, but read_excel has read the text N/A as a
  missing value before the check looks: the column is numeric, the request is answered
  with status 200, and the sums skip the cell.
\<close>

theorem na_text_accepted:
  "Txt ''N/A'' \<in> set (col na_sheet ''Sales'') \<and>
   status (analyze_file pandas_plain (xlsx na_sheet ''Jan'')) = 200"
  by code_simp

subsection \<open>The month filter\<close>

text \<open>
  C4: when the workbook passes validation (so its Date column parses), the list of months
  is not empty and no row is of a listed month, the request is answered with status 400
  and a message that ends with the months as they were requested; nothing is aggregated.
\<close>

theorem no_rows_for_months:
  assumes "file_part req = Some f" and "filename f \<noteq> []"
    and "endswith (filename f) ''.xlsx'' \<or> endswith (filename f) ''.xls''"
    and "content f = Inr sheet"
    and "validate L (read_excel L sheet) = Inr df"
    and "specific_months = (case specificMonths req of None \<Rightarrow> ''Jan'' | Some s \<Rightarrow> s)"
    and "specific_months \<noteq> []"
    and "filter (in_months (month_list specific_months)) df = []"
  shows "analyze_file L req =
     Failure 400 (''No data found for specified months: '' @ specific_months)"
  using prepare_accepted[OF assms(1-4), of L] assms(5-8)
  by (simp add: analyze_file_def filter_months_def)

theorem no_rows_for_months_witness:
  "filter (in_months (month_list ''Dec'')) scenario_table = [] \<and>
   analyze_file pandas_plain (xlsx scenario_sheet ''Dec'') =
     Failure 400 ''No data found for specified months: Dec''"
proof -
  have none: "filter (in_months (month_list ''Dec'')) scenario_table = []"
    by code_simp
  show ?thesis
    using none
      no_rows_for_months[OF xlsx_accepted(1-4) scenario_validated _ _ none, of "''Dec''"]
    by (simp add: xlsx_accepted(5))
qed

subsection \<open>The aggregation\<close>

lemma aggregate_Success:
  assumes "aggregate recent = Success b"
  shows "barChartData b = bar_chart_data recent" and "pieChartData b = pie_chart_data recent"
    and "summaryStats b = summary_stats recent" and "recent \<noteq> []"
  using assms by (auto simp: aggregate_def split: if_splits option.splits)

lemma analyze_aggregate:
  "prepare L req = Inr recent \<Longrightarrow> analyze_file L req = aggregate recent"
  by (simp add: analyze_file_def)

lemma scenario_prepared:
  "prepare pandas_plain (xlsx scenario_sheet ''Jan'') = Inr scenario_rows"
  by code_simp

lemma scenario_answer:
  "analyze_file pandas_plain (xlsx scenario_sheet ''Jan'') = Success scenario_body"
  by code_simp

lemma scenario_all_prepared:
  "prepare pandas_plain (xlsx scenario_sheet '''') = Inr scenario_table"
  by code_simp

lemma scenario_all_answer:
  "analyze_file pandas_plain (xlsx scenario_sheet '''') = Success (body_of scenario_table ''Jan'' (Txt ''B''))"
  by code_simp



lemma by_month_keys: "map fst (by_month recent) = sort (remdups (map fst (month_keys recent)))"
  by (simp add: by_month_def groupby_sum_def comp_def)

lemma bar_months: "map month (bar_chart_data recent) = map fst (by_month recent)"
proof -
  have "map month (bar_chart_data recent) = map (fst \<circ> snd) (enumerate 0 (by_month recent))"
    by (auto simp: bar_chart_data_def)
  also have "\<dots> = map fst (map snd (enumerate 0 (by_month recent)))"
    by (simp only: map_map)
  finally show ?thesis by (simp only: map_snd_enumerate)
qed

lemma month_keys_simps:
  "month_keys [] = []"
  "month_keys (r # rs) =
     (case Date r of None \<Rightarrow> [] | Some d \<Rightarrow> [(month_abbr (mon d), Sales r)]) @ month_keys rs"
  by (simp_all add: month_keys_def)

lemma set_month_keys:
  "set (map fst (month_keys recent)) = {month_abbr (mon d) |d. Some d \<in> set (map Date recent)}"
proof -
  have "k \<in> set (map fst (month_keys recent)) \<longleftrightarrow>
        (\<exists>d. k = month_abbr (mon d) \<and> Some d \<in> set (map Date recent))" for k
  proof (induction recent)
    case Nil
    show ?case by (simp add: month_keys_simps)
  next
    case (Cons r rs)
    show ?case
      by (cases "Date r") (use Cons in \<open>auto simp: month_keys_simps\<close>)
  qed
  then show ?thesis by blast
qed

text \<open>
  C3: when an upload reaches the aggregation and is answered, the month labels of
  barChartData are the month abbreviations of the dates in the table after the filter:
  each of them, no other, none twice.
\<close>

theorem bar_months_exact:
  assumes "prepare L req = Inr recent" and "analyze_file L req = Success b"
  shows "set (map month (barChartData b)) =
           {month_abbr (mon d) |d. Some d \<in> set (map Date recent)} \<and>
         distinct (map month (barChartData b))"
proof -
  have "barChartData b = bar_chart_data recent"
    using assms by (simp add: analyze_aggregate aggregate_Success(1))
  then have "map month (barChartData b) = sort (remdups (map fst (month_keys recent)))"
    by (simp add: bar_months by_month_keys)
  then show ?thesis
    using set_month_keys[of recent] by simp
qed

theorem bar_months_exact_witness:
  "set (map month (barChartData scenario_body)) =
     {month_abbr (mon d) |d. Some d \<in> set (map Date scenario_rows)} \<and>
   distinct (map month (barChartData scenario_body)) \<and>
   map month (barChartData scenario_body) = [''Jan'']"
  using bar_months_exact[OF scenario_prepared scenario_answer]
  by (simp add: scenario_body_def)

text \<open>
  C10: when an upload reaches the aggregation and is answered, the entries of barChartData
  stand in strictly ascending lexicographic order of their month labels, whatever the
  order of the months in the input.
\<close>

theorem bars_alphabetical:
  assumes "prepare L req = Inr recent" and "analyze_file L req = Success b"
  shows "sorted_wrt (<) (map month (barChartData b))"
proof -
  have "barChartData b = bar_chart_data recent"
    using assms by (simp add: analyze_aggregate aggregate_Success(1))
  then have "map month (barChartData b) = sort (remdups (map fst (month_keys recent)))"
    by (simp add: bar_months by_month_keys)
  then show ?thesis
    by (simp add: strict_sorted_iff)
qed

theorem bars_alphabetical_witness:
  "map fst (month_keys scenario_table) = [''Jan'', ''Jan'', ''Feb''] \<and>
   map month (barChartData (body_of scenario_table ''Jan'' (Txt ''B''))) = [''Feb'', ''Jan''] \<and>
   sorted_wrt (<) (map month (barChartData (body_of scenario_table ''Jan'' (Txt ''B''))))"
proof -
  have "map fst (month_keys scenario_table) = [''Jan'', ''Jan'', ''Feb'']"
    by code_simp
  moreover have "map month (barChartData (body_of scenario_table ''Jan'' (Txt ''B''))) = [''Feb'', ''Jan'']"
    by code_simp
  ultimately show ?thesis
    using bars_alphabetical[OF scenario_all_prepared scenario_all_answer] by simp
qed

lemma product_keys_filter:
  "filter (\<lambda>kv. fst kv = p) (product_keys recent) =
     map (\<lambda>r. (Product r, Sales r)) (filter (\<lambda>r. Product r = p \<and> Product r \<noteq> Blank) recent)"
  by (induction recent) (auto simp: product_keys_def)

lemma by_product_entry:
  assumes "(p, s) \<in> set (by_product recent)"
  shows "s = sales_of_product p recent"
proof -
  from assms have key: "p \<in> set (map fst (product_keys recent))"
    and sum: "s = sum_list (map (skipna \<circ> snd) (filter (\<lambda>kv. fst kv = p) (product_keys recent)))"
    by (auto simp: by_product_def groupby_sum_def)
  from key have "p \<noteq> Blank"
    by (auto simp: product_keys_def)
  then have "filter (\<lambda>r. Product r = p \<and> Product r \<noteq> Blank) recent = filter (\<lambda>r. Product r = p) recent"
    by (intro filter_cong) auto
  then show ?thesis
    by (simp add: sum product_keys_filter sales_of_product_def comp_def)
qed

lemma top_products_entry:
  "(i, p, s) \<in> set (top_products recent) \<Longrightarrow> (p, s) \<in> set (by_product recent)"
proof -
  assume "(i, p, s) \<in> set (top_products recent)"
  then have "(i, p, s) \<in> set (enumerate 0 (by_product recent))"
    by (auto simp: top_products_def dest: in_set_takeD)
  then have "(p, s) \<in> snd ` set (enumerate 0 (by_product recent))"
    by force
  then show ?thesis
    by (simp only: set_map[symmetric] map_snd_enumerate)
qed

lemma pie_slice_cases:
  assumes "sl \<in> set (pie_chart_data recent)"
  obtains i p s where "(i, p, s) \<in> set (top_products recent)" and "name sl = p"
    and "value sl = (if total_sales recent > 0 then percentage s (total_sales recent) else Fin 0)"
  using assms by (auto simp: pie_chart_data_def)

subsection \<open>Sums\<close>

lemma sum_insort_key: "sum_list (map f (insort_key k x xs)) = f x + sum_list (map f xs)"
  for f :: "'a \<Rightarrow> 'b::comm_monoid_add"
  by (induction xs) (auto simp: algebra_simps)

lemma sum_sort_key: "sum_list (map f (sort_key k xs)) = sum_list (map f xs)"
  for f :: "'a \<Rightarrow> 'b::comm_monoid_add"
  by (induction xs) (auto simp: sum_insort_key)

lemma sum_pick_none:
  "a \<notin> set ds \<Longrightarrow> sum_list (map (\<lambda>k. if a = k then c else 0) ds) = (0 :: int)"
  by (induction ds) auto

lemma sum_pick:
  assumes "distinct ds" and "a \<in> set ds"
  shows "sum_list (map (\<lambda>k. if a = k then c else 0) ds) = (c :: int)"
  using assms by (induction ds) (auto simp: sum_pick_none)

lemma sum_groups:
  assumes "distinct ds" and "fst ` set kvs \<subseteq> set ds"
  shows "sum_list (map (\<lambda>k. sum_list (map g (filter (\<lambda>kv. fst kv = k) kvs))) ds) =
         (sum_list (map g kvs) :: int)"
  using assms(2)
proof (induction kvs)
  case Nil
  show ?case by simp
next
  case (Cons kv kvs)
  have "sum_list (map (\<lambda>k. sum_list (map g (filter (\<lambda>kv. fst kv = k) (kv # kvs)))) ds) =
        sum_list (map (\<lambda>k. (if fst kv = k then g kv else 0) +
                            sum_list (map g (filter (\<lambda>kv. fst kv = k) kvs))) ds)"
    by (intro arg_cong[where f = sum_list] map_cong) auto
  also have "\<dots> = sum_list (map (\<lambda>k. if fst kv = k then g kv else 0) ds) +
                   sum_list (map (\<lambda>k. sum_list (map g (filter (\<lambda>kv. fst kv = k) kvs))) ds)"
    by (simp add: sum_list_addf)
  also have "\<dots> = g kv + sum_list (map g kvs)"
    using Cons assms(1) by (simp add: sum_pick)
  finally show ?case by simp
qed

lemma groupby_sum_total:
  "sum_list (map snd (groupby_sum ord kvs)) = sum_list (map (skipna \<circ> snd) kvs)"
proof -
  have "sum_list (map snd (groupby_sum ord kvs)) =
        sum_list (map (\<lambda>k. sum_list (map (skipna \<circ> snd) (filter (\<lambda>kv. fst kv = k) kvs)))
                    (remdups (map fst kvs)))"
    by (simp add: groupby_sum_def comp_def sum_sort_key)
  also have "\<dots> = sum_list (map (skipna \<circ> snd) kvs)"
    by (rule sum_groups) auto
  finally show ?thesis .
qed

lemma sum_take_le:
  assumes "\<forall>x\<in>set xs. 0 \<le> f x"
  shows "sum_list (map f (take n xs)) \<le> (sum_list (map f xs) :: int)"
proof -
  have "\<forall>x\<in>set (drop n xs). 0 \<le> f x"
    using assms by (meson in_set_dropD)
  then have "0 \<le> sum_list (map f (drop n xs))"
    by (auto intro!: sum_list_nonneg)
  moreover have "sum_list (map f xs) = sum_list (map f (take n xs)) + sum_list (map f (drop n xs))"
    by (metis append_take_drop_id map_append sum_list_append)
  ultimately show ?thesis by simp
qed


lemma sum_filter_le:
  assumes "\<forall>x\<in>set xs. 0 \<le> f x"
  shows "sum_list (map f (filter P xs)) \<le> (sum_list (map f xs) :: int)"
  using assms by (induction xs) auto

lemma product_sales_nonneg:
  assumes "\<forall>r\<in>set recent. 0 \<le> skipna (Sales r)"
  shows "0 \<le> sales_of_product p recent"
  using assms by (auto simp: sales_of_product_def intro!: sum_list_nonneg)

lemma by_product_total_le:
  assumes "\<forall>r\<in>set recent. 0 \<le> skipna (Sales r)"
  shows "sum_list (map snd (by_product recent)) \<le> total_sales recent"
proof -
  have "sum_list (map snd (by_product recent)) =
        sum_list (map (skipna \<circ> Sales) (filter (\<lambda>r. Product r \<noteq> Blank) recent))"
    by (simp add: by_product_def groupby_sum_total product_keys_def comp_def)
  also have "\<dots> \<le> sum_list (map (skipna \<circ> Sales) recent)"
    using assms by (intro sum_filter_le) simp
  finally show ?thesis by (simp add: total_sales_def)
qed

lemma top_products_sum:
  assumes "\<forall>r\<in>set recent. 0 \<le> skipna (Sales r)"
  shows "sum_list (map (snd \<circ> snd) (top_products recent)) \<le> total_sales recent"
proof -
  let ?E = "enumerate 0 (by_product recent)"
  let ?S = "sort_key (\<lambda>(i, p, s). - s) ?E"
  have "\<forall>e\<in>set ?S. 0 \<le> (snd \<circ> snd) e"
  proof
    fix e assume "e \<in> set ?S"
    then have "snd e \<in> snd ` set ?E" by simp
    then have "snd e \<in> set (by_product recent)"
      by (simp only: set_map[symmetric] map_snd_enumerate)
    then have "snd (snd e) = sales_of_product (fst (snd e)) recent"
      by (intro by_product_entry) simp
    then show "0 \<le> (snd \<circ> snd) e"
      using product_sales_nonneg[OF assms] by simp
  qed
  then have "sum_list (map (snd \<circ> snd) (take 5 ?S)) \<le> sum_list (map (snd \<circ> snd) ?S)"
    by (rule sum_take_le)
  also have "\<dots> = sum_list (map (snd \<circ> snd) ?E)"
    by (rule sum_sort_key)
  also have "\<dots> = sum_list (map snd (map snd ?E))"
    by (simp only: map_map)
  also have "\<dots> = sum_list (map snd (by_product recent))"
    by (simp only: map_snd_enumerate)
  also have "\<dots> \<le> total_sales recent"
    by (rule by_product_total_le[OF assms])
  finally show ?thesis by (simp add: top_products_def)
qed

subsection \<open>Rounding to float64\<close>

lemma rint_floor: "\<lfloor>x\<rfloor> \<le> rint x" "rint x \<le> \<lfloor>x\<rfloor> + 1"
  by (simp_all add: rint_def Let_def)

lemma rint_cases:
  "(rint x = \<lfloor>x\<rfloor> \<and> x - of_int \<lfloor>x\<rfloor> \<le> 1 / 2) \<or>
   (rint x = \<lfloor>x\<rfloor> + 1 \<and> 1 / 2 \<le> x - of_int \<lfloor>x\<rfloor>)"
  by (auto simp: rint_def Let_def)

lemma rint_near: "\<bar>of_int (rint x) - x\<bar> \<le> 1 / 2"
proof -
  have below: "of_int \<lfloor>x\<rfloor> \<le> x" and above: "x < of_int \<lfloor>x\<rfloor> + 1"
    by linarith+
  from rint_cases[of x] show ?thesis
  proof (elim disjE conjE)
    assume r: "rint x = \<lfloor>x\<rfloor>" and "x - of_int \<lfloor>x\<rfloor> \<le> 1 / 2"
    then show ?thesis unfolding r using below by linarith
  next
    assume r: "rint x = \<lfloor>x\<rfloor> + 1" and "1 / 2 \<le> x - of_int \<lfloor>x\<rfloor>"
    then show ?thesis unfolding r using above by simp
  qed
qed

lemma rint_nonneg: "0 \<le> x \<Longrightarrow> 0 \<le> rint x"
  using rint_floor(1)[of x] by (simp add: order_trans[of 0 "\<lfloor>x\<rfloor>"])

lemma rint_of_int: "rint (of_int k) = k"
  by (simp add: rint_def Let_def)

lemma rint_le_int:
  assumes "x \<le> of_int k"
  shows "rint x \<le> k"
proof (cases "x = of_int k")
  case True
  then show ?thesis by (simp add: rint_of_int)
next
  case False
  with assms have "x < of_int k" by simp
  then have "\<lfloor>x\<rfloor> < k" by (simp add: floor_less_iff)
  then show ?thesis using rint_floor(2)[of x] by linarith
qed

lemma rint_unique:
  assumes "\<bar>x - of_int k\<bar> < 1 / 2"
  shows "rint x = k"
proof -
  have "\<bar>(of_int (rint x) :: rat) - of_int k\<bar> < 1"
    using rint_near[of x] assms by linarith
  then have "\<bar>(of_int (rint x - k) :: rat)\<bar> < of_int 1"
    by simp
  then have "\<bar>rint x - k\<bar> < 1"
    by (simp only: of_int_abs [symmetric] of_int_less_iff)
  then show ?thesis by simp
qed

lemma expo_zero: "expo 0 = - 2"
  by code_simp

lemma expo_le:
  assumes "x \<noteq> 0"
  shows "2 powi (expo x) \<le> \<bar>x\<bar>"
proof -
  obtain p q where pq: "quotient_of \<bar>x\<bar> = (p, q)"
    by (cases "quotient_of \<bar>x\<bar>")
  then have q: "0 < q" and x: "\<bar>x\<bar> = of_int p / of_int q"
    by (simp_all add: quotient_of_denom_pos quotient_of_div)
  have "0 < \<bar>x\<bar>"
    using assms by simp
  then have "0 < (of_int p :: rat) / of_int q"
    by (simp only: x)
  then have p: "0 < p"
    using q by (simp add: zero_less_divide_iff)
  let ?d = "bitlen p - bitlen q"
  show ?thesis
  proof (cases "2 powi ?d \<le> \<bar>x\<bar>")
    case True
    then show ?thesis by (simp add: expo_def pq)
  next
    case False
    then have e: "expo x = ?d - 1" by (simp add: expo_def pq)
    have a: "1 \<le> bitlen p" and b: "1 \<le> bitlen q"
      using p q bitlen_eq_zero_iff[of p] bitlen_eq_zero_iff[of q] bitlen_nonneg[of p] bitlen_nonneg[of q]
      by linarith+
    have "(2::int) ^ nat (bitlen p - 1) \<le> p"
      using bitlen_bounds[OF p] by simp
    then have "(of_int ((2::int) ^ nat (bitlen p - 1)) :: rat) \<le> of_int p"
      by (simp only: of_int_le_iff)
    then have lo: "(2::rat) powi (bitlen p - 1) \<le> of_int p"
      using a by (simp add: power_int_def)
    have "q < (2::int) ^ nat (bitlen q)"
      using bitlen_bounds[OF q] by simp
    then have "(of_int q :: rat) < of_int ((2::int) ^ nat (bitlen q))"
      by (simp only: of_int_less_iff)
    then have hi: "of_int q \<le> (2::rat) powi (bitlen q)"
      using b by (simp add: power_int_def)
    have "(2::rat) powi (?d - 1) = 2 powi (bitlen p - 1) / 2 powi (bitlen q)"
      by (simp add: power_int_diff[symmetric] algebra_simps)
    also have "\<dots> \<le> of_int p / 2 powi (bitlen q)"
      using lo by (simp add: divide_right_mono)
    also have "\<dots> \<le> of_int p / of_int q"
      using hi p q by (simp add: frac_le)
    finally show ?thesis by (simp add: e x)
  qed
qed

lemma expo_less:
  assumes "x \<noteq> 0" and "\<bar>x\<bar> < 2 powi j"
  shows "expo x < j"
proof (rule ccontr)
  assume "\<not> expo x < j"
  then have "(2::rat) powi j \<le> 2 powi (expo x)"
    by (intro power_int_increasing) auto
  with expo_le[OF assms(1)] assms(2) show False by linarith
qed


lemma nearest_Fin:
  assumes "u = 2 powi (max (expo x) (- 1022) - 52)" and "y = of_int (rint (x / u)) * u"
    and "\<bar>y\<bar> < 2 powi 1024"
  shows "nearest x = Fin y"
proof -
  have "expo y < 1024"
  proof (cases "y = 0")
    case True
    then show ?thesis by (simp add: expo_zero)
  next
    case False
    then show ?thesis using assms(3) by (rule expo_less)
  qed
  then show ?thesis
    by (simp add: nearest_def Let_def assms(1,2)[symmetric])
qed

lemma ulp_inverse:
  assumes "e \<le> 52"
  shows "(2::rat) powi (e - 52) = 1 / of_int (2 ^ nat (52 - e))"
proof -
  have "(2::rat) powi (e - 52) = 2 powi (- int (nat (52 - e)))"
    using assms by simp
  also have "\<dots> = 1 / 2 ^ nat (52 - e)"
    by (simp only: power_int_minus power_int_of_nat inverse_eq_divide)
  finally show ?thesis by simp
qed

lemma nearest_of_int:
  assumes "\<bar>n\<bar> < 2 ^ 53"
  shows "nearest (of_int n) = Fin (of_int n)"
proof -
  let ?x = "of_int n :: rat"
  let ?e = "max (expo ?x) (- 1022)"
  have e: "?e \<le> 52"
  proof (cases "n = 0")
    case True
    then show ?thesis by (simp add: expo_zero)
  next
    case False
    have "\<bar>?x\<bar> < 2 powi 53"
      using assms by (simp flip: of_int_abs)
    then have "expo ?x < 53"
      using False by (intro expo_less) auto
    then show ?thesis by simp
  qed
  let ?k = "nat (52 - ?e)"
  let ?u = "(2::rat) powi (?e - 52)"
  have u: "?u = 1 / of_int (2 ^ ?k)"
    by (rule ulp_inverse[OF e])
  have "?x / ?u = of_int (n * 2 ^ ?k)"
    by (simp add: u)
  then have "rint (?x / ?u) = n * 2 ^ ?k"
    by (simp only: rint_of_int)
  then have y: "of_int (rint (?x / ?u)) * ?u = ?x"
    by (simp add: u)
  have "\<bar>?x\<bar> < 2 powi 1024"
  proof -
    have "\<bar>?x\<bar> < 2 ^ 53"
      using assms by (simp flip: of_int_abs)
    also have "(2::rat) ^ 53 \<le> 2 ^ 1024"
      by (intro power_increasing) auto
    finally show ?thesis by simp
  qed
  then show ?thesis
    using nearest_Fin[of ?u ?x ?x] y by simp
qed


lemma nearest_bounded:
  assumes "0 \<le> x" and "x \<le> of_int B" and "B < 2 ^ j" and "j \<le> 53"
  obtains y where "nearest x = Fin y" and "0 \<le> y" and "y \<le> of_int B"
    and "\<bar>y - x\<bar> \<le> 2 powi (int j - 54)"
proof (cases "x = 0")
  case True
  have "nearest x = Fin 0"
    using nearest_of_int[of 0] True by simp
  moreover have "(0::rat) \<le> of_int B"
    using assms(1,2) by linarith
  moreover have "\<bar>0 - x\<bar> \<le> 2 powi (int j - 54)"
    using True by simp
  ultimately show ?thesis using that by blast
next
  case False
  let ?e = "max (expo x) (- 1022)"
  have B: "(of_int B :: rat) < 2 ^ j"
    using assms(3) by (metis of_int_less_iff of_int_numeral of_int_power)
  then have "x < 2 ^ j"
    using assms(2) by linarith
  then have "\<bar>x\<bar> < 2 powi (int j)"
    using assms(1) by simp
  then have "expo x < int j"
    using False by (intro expo_less)
  then have e: "?e \<le> int j - 1"
    by simp
  then have e52: "?e \<le> 52"
    using assms(4) by linarith
  let ?k = "nat (52 - ?e)"
  let ?u = "(2::rat) powi (?e - 52)"
  have u: "?u = 1 / of_int (2 ^ ?k)"
    by (rule ulp_inverse[OF e52])
  have upos: "0 < ?u"
    by simp
  let ?m = "rint (x / ?u)"
  let ?y = "of_int ?m * ?u"
  have "0 \<le> x / ?u"
    using assms(1) upos by simp
  then have "0 \<le> ?m"
    by (rule rint_nonneg)
  then have y0: "0 \<le> ?y"
    using upos by simp
  have "x / ?u \<le> of_int B / ?u"
    using assms(2) upos by (simp add: divide_right_mono)
  also have "of_int B / ?u = of_int (B * 2 ^ ?k)"
    by (simp add: u)
  finally have "?m \<le> B * 2 ^ ?k"
    by (rule rint_le_int)
  then have "(of_int ?m :: rat) \<le> of_int (B * 2 ^ ?k)"
    by (simp only: of_int_le_iff)
  then have "?y \<le> of_int (B * 2 ^ ?k) * ?u"
    using upos by (simp only: mult_le_cancel_right_pos)
  also have "\<dots> = of_int B"
    by (simp add: u)
  finally have yB: "?y \<le> of_int B" .
  have "\<bar>?y - x\<bar> = \<bar>of_int ?m - x / ?u\<bar> * ?u"
  proof -
    have "?y - x = (of_int ?m - x / ?u) * ?u"
      using upos by (simp add: field_simps)
    then show ?thesis
      using upos by (simp add: abs_mult)
  qed
  also have "\<dots> \<le> 1 / 2 * ?u"
    using rint_near[of "x / ?u"] upos by (intro mult_right_mono) auto
  also have "?u \<le> 2 powi (int j - 53)"
    using e by (intro power_int_increasing) auto
  finally have "\<bar>?y - x\<bar> \<le> 1 / 2 * 2 powi (int j - 53)"
    by simp
  also have "\<dots> = 2 powi (int j - 54)"
  proof -
    have "(2::rat) powi (int j - 53) = 2 powi (int j - 54 + 1)"
      by simp
    also have "\<dots> = 2 powi (int j - 54) * 2"
      by (subst power_int_add) auto
    finally show ?thesis by simp
  qed
  finally have err: "\<bar>?y - x\<bar> \<le> 2 powi (int j - 54)" .
  have "\<bar>?y\<bar> < 2 powi 1024"
  proof -
    have "?y < 2 ^ j"
      using yB B by linarith
    then have "\<bar>?y\<bar> < 2 ^ j"
      using y0 by simp
    also have "(2::rat) ^ j \<le> 2 ^ 1024"
      using assms(4) by (intro power_increasing) auto
    finally show ?thesis by simp
  qed
  then have "nearest x = Fin ?y"
    using nearest_Fin[of ?u x ?y] by simp
  then show ?thesis
    using that y0 yB err by blast
qed


lemma percentage_tenths:
  assumes "0 \<le> s" and "s \<le> T" and "0 < T" and "T < 2 ^ 53"
  obtains k where "percentage s T = nearest (of_int k / 10)" and "0 \<le> k" and "k \<le> 1000"
    and "\<bar>of_int k - 1000 * of_int s / of_int T\<bar> \<le> (1 / 2 + 1 / 2 ^ 40 :: rat)"
    and "tenths (percentage s T) = k"
proof -
  let ?q = "of_int s / of_int T :: rat"
  have conv: "f64_of_int s = Fin (of_int s)" "f64_of_int T = Fin (of_int T)"
    using assms by (simp_all add: f64_of_int_def nearest_of_int)
  have q: "0 \<le> ?q" "?q \<le> of_int 1"
    using assms by simp_all
  obtain y0 where y0: "nearest ?q = Fin y0" "0 \<le> y0" "y0 \<le> of_int 1"
    and e0: "\<bar>y0 - ?q\<bar> \<le> 2 powi (int 1 - 54)"
    using nearest_bounded[OF q, of 1] by auto
  have "0 \<le> y0 * 100" "y0 * 100 \<le> of_int 100"
    using y0 by simp_all
  then obtain y1 where y1: "nearest (y0 * 100) = Fin y1" "0 \<le> y1" "y1 \<le> of_int 100"
    and e1: "\<bar>y1 - y0 * 100\<bar> \<le> 2 powi (int 7 - 54)"
    using nearest_bounded[of "y0 * 100" 100 7] by auto
  have "0 \<le> y1 * 10" "y1 * 10 \<le> of_int 1000"
    using y1 by simp_all
  then obtain y2 where y2: "nearest (y1 * 10) = Fin y2" "0 \<le> y2" "y2 \<le> of_int 1000"
    and e2: "\<bar>y2 - y1 * 10\<bar> \<le> 2 powi (int 10 - 54)"
    using nearest_bounded[of "y1 * 10" 1000 10] by auto
  let ?k = "rint y2"
  have k: "0 \<le> ?k" "?k \<le> 1000"
    using y2 by (simp_all add: rint_nonneg rint_le_int)
  have val: "percentage s T = nearest (of_int ?k / 10)"
    using assms(3) by (simp add: percentage_def round_f64_def conv y0 y1 y2)
  have e0': "\<bar>y0 - ?q\<bar> \<le> 1 / 2 ^ 53" and e1': "\<bar>y1 - y0 * 100\<bar> \<le> 1 / 2 ^ 47"
    and e2': "\<bar>y2 - y1 * 10\<bar> \<le> 1 / 2 ^ 44"
    using e0 e1 e2 by (simp_all add: power_int_def inverse_eq_divide power_one_over)
  have e3: "\<bar>of_int ?k - y2\<bar> \<le> 1 / 2"
    by (rule rint_near)
  have "\<bar>of_int ?k - 1000 * ?q\<bar> \<le> 1 / 2 + 1 / 2 ^ 44 + 10 / 2 ^ 47 + 1000 / 2 ^ 53"
    using e0' e1' e2' e3 by linarith
  also have "\<dots> \<le> 1 / 2 + 1 / 2 ^ 40"
    by simp
  finally have err: "\<bar>of_int ?k - 1000 * of_int s / of_int T\<bar> \<le> (1 / 2 + 1 / 2 ^ 40 :: rat)"
    by simp
  have "(0::rat) \<le> of_int ?k / 10" "(of_int ?k :: rat) / 10 \<le> of_int 100"
    using k by simp_all
  then obtain v where v: "nearest (of_int ?k / 10) = Fin v"
    and ev: "\<bar>v - of_int ?k / 10\<bar> \<le> 2 powi (int 7 - 54)"
    using nearest_bounded[of "of_int ?k / 10" 100 7] by auto
  have "\<bar>v - of_int ?k / 10\<bar> \<le> 1 / 2 ^ 47"
    using ev by (simp add: power_int_def inverse_eq_divide power_one_over)
  also have "\<dots> \<le> 1 / 100"
    by simp
  finally have "\<bar>v - of_int ?k / 10\<bar> \<le> 1 / 100" .
  then have "\<bar>v * 10 - of_int ?k\<bar> < 1 / 2"
    by linarith
  then have "tenths (percentage s T) = ?k"
    by (simp add: val v rint_unique)
  then show ?thesis
    using that val k err by blast
qed

subsection \<open>The values of the pie\<close>







text \<open>
  C1, as amended: in the scenario of three rows with the months set to Jan, barChartData
  is the one bar of Jan with sales 30 and colour #3B82F6, pieChartData is the slice of B
  with 66.7 followed by the slice of A with 33.3 (the slices come in descending order of
  sales), and the first of topPerformers names Jan.
\<close>

theorem scenario_response:
  "analyze_file pandas_plain (xlsx scenario_sheet ''Jan'') = Success scenario_body \<and>
   barChartData scenario_body = [\<lparr>month = ''Jan'', sales = 30, color = ''#3B82F6''\<rparr>] \<and>
   map (\<lambda>sl. (name sl, value sl)) (pieChartData scenario_body) =
     [(Txt ''B'', nearest (667 / 10)), (Txt ''A'', nearest (333 / 10))] \<and>
   topPerformers (insights scenario_body) ! 0 =
     [Lit ''Jan'', Lit '' showed the highest sales volume'']"
  using scenario_answer by (simp add: scenario_body_def)

text \<open>C1, as stated, fails: the slice of A followed by the slice of B is not what comes out.\<close>

theorem scenario_pie_order:
  "(case analyze_file pandas_plain (xlsx scenario_sheet ''Jan'') of
      Success b \<Rightarrow>
        map (\<lambda>sl. (name sl, value sl)) (pieChartData b) \<noteq>
          [(Txt ''A'', nearest (333 / 10)), (Txt ''B'', nearest (667 / 10))]
    | Failure code msg \<Rightarrow> False)"
  by (simp add: scenario_answer scenario_body_def)

lemma pie_as_top:
  "map value (pie_chart_data recent) =
     map (\<lambda>e. if total_sales recent > 0 then percentage (snd (snd e)) (total_sales recent)
               else Fin 0)
       (top_products recent)"
  "map (\<lambda>sl. sales_of_product (name sl) recent) (pie_chart_data recent) =
     map (snd \<circ> snd) (top_products recent)"
  "length (pie_chart_data recent) = length (top_products recent)"
  "length (top_products recent) \<le> 5"
proof -
  show "map value (pie_chart_data recent) =
     map (\<lambda>e. if total_sales recent > 0 then percentage (snd (snd e)) (total_sales recent)
               else Fin 0)
       (top_products recent)"
    by (simp add: pie_chart_data_def comp_def case_prod_beta)
  have "sales_of_product (fst (snd e)) recent = snd (snd e)" if "e \<in> set (top_products recent)" for e
    using that top_products_entry[of "fst e" "fst (snd e)" "snd (snd e)" recent] by_product_entry
    by fastforce
  then show "map (\<lambda>sl. sales_of_product (name sl) recent) (pie_chart_data recent) =
     map (snd \<circ> snd) (top_products recent)"
    by (simp add: pie_chart_data_def comp_def case_prod_beta)
  show "length (pie_chart_data recent) = length (top_products recent)"
    by (simp add: pie_chart_data_def)
  show "length (top_products recent) \<le> 5"
    by (simp add: top_products_def)
qed

lemma by_product_length: "length (by_product recent) = card (Product ` set recent - {Blank})"
proof -
  have "set (map fst (product_keys recent)) = Product ` set recent - {Blank}"
    by (auto simp: product_keys_def)
  then show ?thesis
    by (simp add: by_product_def groupby_sum_def length_remdups_card_conv del: set_map)
qed

lemma labelled_total:
  assumes "Blank \<notin> Product ` set recent"
  shows "sum_list (map snd (by_product recent)) = total_sales recent"
proof -
  have "Product r \<noteq> Blank" if "r \<in> set recent" for r
    using assms that by (metis image_eqI)
  then have "filter (\<lambda>r. Product r \<noteq> Blank) recent = recent"
    by (simp add: filter_id_conv)
  then show ?thesis
    by (simp add: by_product_def groupby_sum_total product_keys_def comp_def total_sales_def)
qed

lemma top_products_all:
  assumes "length (by_product recent) \<le> 5"
  shows "sum_list (map (snd \<circ> snd) (top_products recent)) = sum_list (map snd (by_product recent))"
proof -
  let ?E = "enumerate 0 (by_product recent)"
  have "top_products recent = sort_key (\<lambda>(i, p, s). - s) ?E"
    using assms by (simp add: top_products_def)
  then have "sum_list (map (snd \<circ> snd) (top_products recent)) = sum_list (map (snd \<circ> snd) ?E)"
    by (simp only: sum_sort_key)
  also have "\<dots> = sum_list (map snd (map snd ?E))"
    by (simp only: map_map)
  finally show ?thesis
    by (simp only: map_snd_enumerate)
qed

lemma sum_near:
  fixes c h :: rat
  assumes "\<forall>e\<in>set xs. \<bar>of_int (k e) - c * of_int (g e)\<bar> \<le> h"
  shows "\<bar>of_int (sum_list (map k xs)) - c * of_int (sum_list (map g xs))\<bar> \<le> of_nat (length xs) * h"
  using assms
proof (induction xs)
  case Nil
  show ?case by simp
next
  case (Cons e xs)
  let ?K = "of_int (sum_list (map k xs)) :: rat" and ?G = "of_int (sum_list (map g xs)) :: rat"
  have one: "\<bar>of_int (k e) - c * of_int (g e)\<bar> \<le> h" and rest: "\<bar>?K - c * ?G\<bar> \<le> of_nat (length xs) * h"
    using Cons by simp_all
  have "of_int (sum_list (map k (e # xs))) - c * of_int (sum_list (map g (e # xs))) =
        (of_int (k e) - c * of_int (g e)) + (?K - c * ?G)"
    by (simp add: algebra_simps)
  then have "\<bar>of_int (sum_list (map k (e # xs))) - c * of_int (sum_list (map g (e # xs)))\<bar> \<le>
        \<bar>of_int (k e) - c * of_int (g e)\<bar> + \<bar>?K - c * ?G\<bar>"
    by (simp only: abs_triangle_ineq)
  also have "\<dots> \<le> h + of_nat (length xs) * h"
    using one rest by linarith
  also have "\<dots> = of_nat (length (e # xs)) * h"
    by (simp add: algebra_simps)
  finally show ?case .
qed

lemma sum_all_zero: "\<forall>x\<in>set xs. f x = (0::int) \<Longrightarrow> sum_list (map f xs) = 0"
  by (induction xs) auto

lemma rint_zero: "rint 0 = 0"
  by (simp add: rint_def)

lemma nearest_zero: "nearest 0 = Fin 0"
  using nearest_of_int[of 0] by simp

text \<open>
  C2, as amended: when an upload reaches the aggregation and is answered, no Sales value
  of the filtered table is negative and the total is in the range of exact sums, then
  pieChartData has at most 5 slices; every value is a whole number of tenths between 0 and
  100, as a float64; the products of the slices together sold at most the total, so the
  shares before rounding sum to at most 100; and the values, read to one decimal, sum to
  at most 100 plus 0.05 for each slice. When moreover the filtered table has at most 5
  distinct products and every row has one, the products of the slices sold exactly the
  total, and with a positive total the values sum to at least 100 minus 0.05 for each
  slice.
\<close>

theorem pie_values_bounded:
  assumes "prepare L req = Inr recent" and "analyze_file L req = Success b"
    and "\<forall>r\<in>set recent. 0 \<le> skipna (Sales r)"
    and "total_sales recent < 2 ^ 53"
  shows "length (pieChartData b) \<le> 5 \<and>
         (\<forall>sl\<in>set (pieChartData b).
            0 \<le> tenths (value sl) \<and> tenths (value sl) \<le> 1000 \<and>
            value sl = nearest (of_int (tenths (value sl)) / 10)) \<and>
         sum_list (map (\<lambda>sl. sales_of_product (name sl) recent) (pieChartData b))
           \<le> total_sales recent \<and>
         2 * sum_list (map (\<lambda>sl. tenths (value sl)) (pieChartData b))
           \<le> 2000 + int (length (pieChartData b)) \<and>
         (card (Product ` set recent) \<le> 5 \<and> Blank \<notin> Product ` set recent \<longrightarrow>
            sum_list (map (\<lambda>sl. sales_of_product (name sl) recent) (pieChartData b))
              = total_sales recent) \<and>
         (card (Product ` set recent) \<le> 5 \<and> Blank \<notin> Product ` set recent \<and>
          0 < total_sales recent \<longrightarrow>
            2000 - int (length (pieChartData b))
              \<le> 2 * sum_list (map (\<lambda>sl. tenths (value sl)) (pieChartData b)))"
proof -
  let ?T = "total_sales recent"
  let ?top = "top_products recent"
  let ?s = "\<lambda>e :: nat \<times> cell \<times> int. snd (snd e)"
  let ?k = "\<lambda>e :: nat \<times> cell \<times> int. tenths (percentage (snd (snd e)) ?T)"
  let ?n = "length ?top"
  have pie: "pieChartData b = pie_chart_data recent"
    using assms by (simp add: analyze_aggregate aggregate_Success(2))
  have n5: "?n \<le> 5"
    by (rule pie_as_top(4))
  have top: "sum_list (map ?s ?top) \<le> ?T"
    using top_products_sum[OF assms(3)] by (simp add: comp_def)
  have sales: "map (\<lambda>sl. sales_of_product (name sl) recent) (pie_chart_data recent) = map ?s ?top"
    using pie_as_top(2)[of recent] by (simp add: comp_def)
  have covered: "sum_list (map ?s ?top) = ?T"
    if "card (Product ` set recent) \<le> 5" and "Blank \<notin> Product ` set recent"
  proof -
    have "Product ` set recent - {Blank} = Product ` set recent"
      using that(2) by auto
    then have "length (by_product recent) \<le> 5"
      using that(1) by (simp add: by_product_length)
    then show ?thesis
      using top_products_all[of recent] labelled_total[OF that(2)] by (simp add: comp_def)
  qed
  have entry: "0 \<le> ?s e \<and> ?s e \<le> ?T" if "e \<in> set ?top" for e
  proof -
    have "(fst (snd e), ?s e) \<in> set (by_product recent)"
      using that top_products_entry[of "fst e" "fst (snd e)" "?s e" recent] by simp
    then have s: "?s e = sales_of_product (fst (snd e)) recent"
      by (rule by_product_entry)
    have "sales_of_product (fst (snd e)) recent \<le> sum_list (map (skipna \<circ> Sales) recent)"
      unfolding sales_of_product_def using assms(3) by (intro sum_filter_le) simp
    then show ?thesis
      using product_sales_nonneg[OF assms(3), of "fst (snd e)"] by (simp add: s total_sales_def)
  qed
  show ?thesis
  proof (cases "0 < ?T")
    case False
    then have vals: "map value (pie_chart_data recent) = map (\<lambda>e. Fin 0) ?top"
      by (simp add: pie_as_top(1))
    then have each: "value sl = Fin 0" if "sl \<in> set (pie_chart_data recent)" for sl
      using that by (auto elim!: pie_slice_cases simp: False)
    have zero: "sum_list (map (\<lambda>sl. tenths (value sl)) (pie_chart_data recent)) = 0"
      using each by (intro sum_all_zero) (simp add: rint_zero)
    show ?thesis
      unfolding pie using each top covered n5 False
      by (simp add: sales zero pie_as_top(3) nearest_zero rint_zero)
  next
    case True
    have per: "0 \<le> ?k e \<and> ?k e \<le> 1000 \<and>
               percentage (?s e) ?T = nearest (of_int (?k e) / 10) \<and>
               \<bar>of_int (?k e) - 1000 / of_int ?T * of_int (?s e)\<bar> \<le> (1 / 2 + 1 / 2 ^ 40 :: rat)"
      if "e \<in> set ?top" for e
    proof -
      from entry[OF that] have s: "0 \<le> ?s e" "?s e \<le> ?T" by simp_all
      from percentage_tenths[OF s True assms(4)] obtain k
        where k: "percentage (?s e) ?T = nearest (of_int k / 10)" "0 \<le> k" "k \<le> 1000"
          "\<bar>of_int k - 1000 * of_int (?s e) / of_int ?T\<bar> \<le> (1 / 2 + 1 / 2 ^ 40 :: rat)"
          "tenths (percentage (?s e) ?T) = k"
        by blast
      have "(1000 :: rat) * of_int (?s e) / of_int ?T = 1000 / of_int ?T * of_int (?s e)"
        by simp
      then show ?thesis
        using k by simp
    qed
    have vals: "map value (pie_chart_data recent) = map (\<lambda>e. percentage (?s e) ?T) ?top"
      using True by (simp add: pie_as_top(1))
    have each: "0 \<le> tenths (value sl) \<and> tenths (value sl) \<le> 1000 \<and>
                value sl = nearest (of_int (tenths (value sl)) / 10)"
      if "sl \<in> set (pie_chart_data recent)" for sl
    proof -
      from that obtain i p s where e: "(i, p, s) \<in> set ?top"
        and v: "value sl = percentage s ?T"
        using True by (auto elim!: pie_slice_cases)
      show ?thesis
        using per[OF e] by (simp add: v)
    qed
    have tens: "map (\<lambda>sl. tenths (value sl)) (pie_chart_data recent) = map ?k ?top"
    proof -
      have "map (\<lambda>sl. tenths (value sl)) (pie_chart_data recent) =
            map tenths (map value (pie_chart_data recent))"
        by (simp add: comp_def)
      then show ?thesis
        unfolding vals by (simp add: comp_def)
    qed
    let ?K = "sum_list (map ?k ?top)"
    let ?S = "sum_list (map ?s ?top)"
    have near: "\<bar>of_int ?K - 1000 / of_int ?T * of_int ?S\<bar> \<le> of_nat ?n * (1 / 2 + 1 / 2 ^ 40 :: rat)"
      using per by (intro sum_near) blast
    have n_rat: "(of_nat ?n :: rat) \<le> 5"
      using n5 by (metis of_nat_le_iff of_nat_numeral)
    have slack: "of_nat ?n * (1 / 2 + 1 / 2 ^ 40 :: rat) < of_nat ?n / 2 + 1 / 2"
    proof -
      have "of_nat ?n * (1 / 2 ^ 40 :: rat) \<le> 5 * (1 / 2 ^ 40)"
        using n_rat by (intro mult_right_mono) auto
      also have "\<dots> < 1 / 2"
        by simp
      finally show ?thesis
        by (simp add: algebra_simps)
    qed
    have share: "0 \<le> (1000 / of_int ?T * of_int ?S :: rat)"
      "(1000 / of_int ?T * of_int ?S :: rat) \<le> 1000"
    proof -
      have "0 \<le> ?S"
        using entry by (intro sum_list_nonneg) auto
      then show "0 \<le> (1000 / of_int ?T * of_int ?S :: rat)"
        using True by simp
      have "(of_int ?S :: rat) \<le> of_int ?T"
        using top by (simp only: of_int_le_iff)
      then show "(1000 / of_int ?T * of_int ?S :: rat) \<le> 1000"
        using True by (simp add: field_simps)
    qed
    have "(of_int ?K :: rat) < 1000 + of_nat ?n / 2 + 1 / 2"
      using near slack share(2) by linarith
    then have "(of_int (2 * ?K) :: rat) < of_int (2000 + int ?n + 1)"
      by simp
    then have "2 * ?K < 2000 + int ?n + 1"
      by (simp only: of_int_less_iff)
    then have upper: "2 * ?K \<le> 2000 + int ?n"
      by simp
    have lower: "2000 - int ?n \<le> 2 * ?K" if "?S = ?T"
    proof -
      have "(1000 / of_int ?T * of_int ?S :: rat) = 1000"
        using True that by simp
      then have "(1000 :: rat) - of_nat ?n / 2 - 1 / 2 < of_int ?K"
        using near slack by linarith
      then have "(of_int (2000 - int ?n - 1) :: rat) < of_int (2 * ?K)"
        by simp
      then have "2000 - int ?n - 1 < 2 * ?K"
        by (simp only: of_int_less_iff)
      then show ?thesis by simp
    qed
    show ?thesis
      unfolding pie using each top covered n5 upper lower
      by (simp add: sales tens pie_as_top(3))
  qed
qed

theorem pie_values_bounded_witness:
  "map (\<lambda>sl. tenths (value sl)) (pieChartData scenario_body) = [667, 333] \<and>
   map value (pieChartData scenario_body) = [nearest (667 / 10), nearest (333 / 10)] \<and>
   length (pieChartData scenario_body) \<le> 5 \<and>
   card (Product ` set scenario_rows) = 2 \<and>
   sum_list (map (\<lambda>sl. sales_of_product (name sl) scenario_rows) (pieChartData scenario_body))
     = total_sales scenario_rows \<and>
   2 * sum_list (map (\<lambda>sl. tenths (value sl)) (pieChartData scenario_body))
     \<le> 2000 + int (length (pieChartData scenario_body)) \<and>
   2000 - int (length (pieChartData scenario_body))
     \<le> 2 * sum_list (map (\<lambda>sl. tenths (value sl)) (pieChartData scenario_body))"
proof -
  have nonneg: "\<forall>r\<in>set scenario_rows. 0 \<le> skipna (Sales r)"
    by (simp add: scenario_rows_def)
  have range: "total_sales scenario_rows < 2 ^ 53" and pos: "0 < total_sales scenario_rows"
    by (simp_all add: total_sales_def scenario_rows_def)
  have products: "Product ` set scenario_rows = {Txt ''A'', Txt ''B''}"
    by (simp add: scenario_rows_def)
  then have few: "card (Product ` set scenario_rows) = 2"
    and labelled: "Blank \<notin> Product ` set scenario_rows"
    by simp_all
  have shown: "map (\<lambda>sl. tenths (value sl)) (pieChartData scenario_body) = [667, 333]"
    by code_simp
  have vals: "map value (pieChartData scenario_body) = [nearest (667 / 10), nearest (333 / 10)]"
    by (simp add: scenario_body_def)
  from pie_values_bounded[OF scenario_prepared scenario_answer nonneg range]
  show ?thesis
    using few labelled pos shown vals by simp
qed

text \<open>
  C2, as stated, fails: three products that sold 4, 1 and 1 get 66.7, 16.7 and 16.7, which
  sum to 100.1, above 100 and not equal to 100 although there are fewer than 5 products.
\<close>

theorem pie_sum_exceeds:
  "(case analyze_file pandas_plain (xlsx sixths_sheet ''Jan'') of
      Success b \<Rightarrow>
        map value (pieChartData b) = [nearest (667 / 10), nearest (167 / 10), nearest (167 / 10)] \<and>
        sum_list (map (\<lambda>sl. tenths (value sl)) (pieChartData b)) = 1001
    | Failure code msg \<Rightarrow> False)"
  by code_simp

subsection \<open>No filter and the filter on every month\<close>

lemma split_on_plain: "c \<notin> set x \<Longrightarrow> split_on c x = [x]"
  by (induction x) auto

lemma split_on_append: "c \<notin> set x \<Longrightarrow> split_on c (x @ c # rest) = x # split_on c rest"
  by (induction x) auto

lemma split_join:
  "ms \<noteq> [] \<Longrightarrow> \<forall>m\<in>set ms. c \<notin> set m \<Longrightarrow> split_on c (join [c] ms) = ms"
proof (induction ms rule: induct_list012)
  case 1
  then show ?case by simp
next
  case (2 x)
  then show ?case by (simp add: split_on_plain)
next
  case (3 x y ys)
  then have "split_on c (join [c] (y # ys)) = y # ys" by simp
  moreover have "c \<notin> set x" using 3 by simp
  ultimately show ?case by (simp add: split_on_append)
qed

lemma strip_abbr: "strip (month_abbr m) = month_abbr m"
  by (cases m) (simp_all add: strip_def isspace_def)

lemma abbr_plain: "CHR '','' \<notin> set (month_abbr m)" "month_abbr m \<noteq> []"
  by (cases m; simp)+

lemma present_month:
  assumes "r \<in> set df" and "Date r = Some d"
  shows "month_abbr (mon d) \<in> set (months_present df)"
proof -
  have "Some d \<in> set (map Date df)"
    using assms by force
  then have "month_abbr (mon d) \<in> {month_abbr (mon d) |d. Some d \<in> set (map Date df)}"
    by blast
  then show ?thesis
    by (simp only: months_present_def set_remdups set_month_keys)
qed

lemma months_present_abbr:
  assumes "m \<in> set (months_present df)"
  shows "\<exists>mo. m = month_abbr mo"
proof -
  from assms have "m \<in> set (map fst (month_keys df))"
    by (simp add: months_present_def)
  then have "m \<in> {month_abbr (mon d) |d. Some d \<in> set (map Date df)}"
    by (simp only: set_month_keys)
  then show ?thesis by auto
qed

lemma month_list_join:
  assumes "months_present df \<noteq> []"
  shows "month_list (join '','' (months_present df)) = months_present df"
proof -
  have "\<forall>m\<in>set (months_present df). CHR '','' \<notin> set m"
    using months_present_abbr abbr_plain(1) by metis
  then have "split_on CHR '','' (join [CHR '',''] (months_present df)) = months_present df"
    using assms by (intro split_join)
  moreover have "map strip (months_present df) = months_present df"
  proof (intro map_idI)
    fix m assume "m \<in> set (months_present df)"
    then obtain mo where "m = month_abbr mo" using months_present_abbr by blast
    then show "strip m = m" by (simp add: strip_abbr)
  qed
  ultimately show ?thesis by (simp add: month_list_def)
qed

lemma join_nonempty:
  assumes "months_present df \<noteq> []"
  shows "join '','' (months_present df) \<noteq> []"
proof -
  obtain m ms where ms: "months_present df = m # ms"
    using assms by (cases "months_present df") auto
  then have "m \<in> set (months_present df)" by simp
  then obtain mo where "m = month_abbr mo" using months_present_abbr by blast
  then have "m \<noteq> []" by (simp add: abbr_plain)
  then show ?thesis
    unfolding ms by (cases ms) auto
qed

lemma filter_all_months:
  assumes "\<forall>r\<in>set df. Date r \<noteq> None"
  shows "filter (in_months (months_present df)) df = df"
proof -
  have "in_months (months_present df) r" if "r \<in> set df" for r
  proof -
    from that assms obtain d where d: "Date r = Some d" by auto
    show ?thesis
      using present_month[OF that d] by (simp add: in_months_def d)
  qed
  then show ?thesis by (simp add: filter_id_conv)
qed

lemma filter_months_all:
  assumes "\<forall>r\<in>set df. Date r \<noteq> None"
  shows "filter_months (join '','' (months_present df)) df = Inr df"
proof (cases "df = []")
  case True
  then show ?thesis by (simp add: filter_months_def months_present_def month_keys_def)
next
  case False
  then obtain r where r: "r \<in> set df" by (cases df) auto
  with assms obtain d where "Date r = Some d" by auto
  then have present: "months_present df \<noteq> []"
    using present_month[OF r] by auto
  have kept: "filter (in_months (month_list (join '','' (months_present df)))) df = df"
    by (simp only: month_list_join[OF present] filter_all_months[OF assms])
  show ?thesis
    unfolding filter_months_def Let_def kept using False join_nonempty[OF present] by simp
qed

text \<open>
  C6, as amended: for an upload that passes validation and whose rows all have a date, an
  empty \<open>specificMonths\<close> lets every row through, and the request that lists every
  month abbreviation present in the data, separated by commas, gets the very same response
  (bars, pie and summary statistics).
\<close>

theorem empty_months_is_all_months:
  assumes "file_part req = Some f" and "filename f \<noteq> []"
    and "endswith (filename f) ''.xlsx'' \<or> endswith (filename f) ''.xls''"
    and "content f = Inr sheet"
    and "validate L (read_excel L sheet) = Inr df"
    and "\<forall>r\<in>set df. Date r \<noteq> None"
  shows "prepare L (req\<lparr>specificMonths := Some ''''\<rparr>) = Inr df \<and>
         analyze_file L (req\<lparr>specificMonths := Some (join '','' (months_present df))\<rparr>) =
         analyze_file L (req\<lparr>specificMonths := Some ''''\<rparr>)"
proof -
  have pre: "prepare L (req\<lparr>specificMonths := Some s\<rparr>) = filter_months s df" for s
    using prepare_accepted[of "req\<lparr>specificMonths := Some s\<rparr>" f sheet L] assms(1-5) by simp
  have none: "prepare L (req\<lparr>specificMonths := Some ''''\<rparr>) = Inr df"
    unfolding pre by (simp add: filter_months_def)
  have every: "prepare L (req\<lparr>specificMonths := Some (join '','' (months_present df))\<rparr>) = Inr df"
    unfolding pre by (rule filter_months_all[OF assms(6)])
  show ?thesis
    by (simp add: analyze_file_def none every)
qed

lemma undated_validated:
  "validate pandas_plain (read_excel pandas_plain undated_sheet) = Inr undated_table"
  by code_simp

lemma undated_months: "join '','' (months_present undated_table) = ''Jan''"
  by code_simp

theorem empty_months_is_all_months_witness:
  "join '','' (months_present scenario_table) = ''Jan,Feb'' \<and>
   prepare pandas_plain (xlsx scenario_sheet '''') = Inr scenario_table \<and>
   analyze_file pandas_plain (xlsx scenario_sheet ''Jan,Feb'') =
   analyze_file pandas_plain (xlsx scenario_sheet '''')"
proof -
  have dated: "\<forall>r\<in>set scenario_table. Date r \<noteq> None"
    by (simp add: scenario_table_def)
  have months: "join '','' (months_present scenario_table) = ''Jan,Feb''"
    by code_simp
  have "(xlsx scenario_sheet ''Jan'')\<lparr>specificMonths := Some s\<rparr> = xlsx scenario_sheet s" for s
    by (simp add: xlsx_def)
  then show ?thesis
    using empty_months_is_all_months[OF xlsx_accepted(1-4) scenario_validated dated, of "''Jan''"]
    by (simp add: months)
qed

lemma undated_all:
  "analyze_file pandas_plain (xlsx undated_sheet '''') = Success (body_of undated_table ''Jan'' (Txt ''A''))"
  by code_simp

lemma undated_jan:
  "analyze_file pandas_plain (xlsx undated_sheet ''Jan'') = Success (body_of undated_kept ''Jan'' (Txt ''A''))"
  by code_simp

lemma undated_values:
  "map value (pie_chart_data undated_table) = [nearest (667 / 10), nearest (333 / 10)]"
  "map value (pie_chart_data undated_kept) = [Fin 100]"
  "map amount (summary_stats undated_table) =
     [[Lit ''$'', Formatted '',.2f'' (Fin 150)], [Formatted '',.0f'' (Fin 15)],
      [Formatted '',.2f'' (Fin (15 / 2))]]"
  "map amount (summary_stats undated_kept) =
     [[Lit ''$'', Formatted '',.2f'' (Fin 100)], [Formatted '',.0f'' (Fin 10)],
      [Formatted '',.2f'' (Fin 10)]]"
  by code_simp+

text \<open>
  C6, as stated, fails on a row without a date: the empty parameter keeps the row, the
  list of the months present (here Jan) drops it, and the totals differ.
\<close>

theorem undated_rows_differ:
  "validate pandas_plain (read_excel pandas_plain undated_sheet) = Inr undated_table \<and>
   join '','' (months_present undated_table) = ''Jan'' \<and>
   (case (analyze_file pandas_plain (xlsx undated_sheet ''''),
          analyze_file pandas_plain (xlsx undated_sheet ''Jan'')) of
      (Success a, Success b) \<Rightarrow>
        map amount (summaryStats a) \<noteq> map amount (summaryStats b) \<and>
        map value (pieChartData a) \<noteq> map value (pieChartData b)
    | _ \<Rightarrow> False)"
  by (simp add: undated_validated undated_months undated_all undated_jan body_of_def
      undated_values)

end
